theory Spec2Isabelle
  imports Complex_Main
begin

section \<open>Data model of the shell (src/App.tsx)\<close>

text \<open>
  The records of App.tsx. A field typed \<open>T | null\<close> or declared optional (\<open>f?: T | null\<close>)
  is a \<open>T option\<close>: the shell reads such fields only through \<open>??\<close>, \<open>!= null\<close> and
  \<open>&&\<close>, which treat \<open>null\<close> and \<open>undefined\<close> alike. The counters and sizes are
  unsigned integers (\<open>nat\<close>); latency and throughput are fractional numbers (\<open>real\<close>).
\<close>

record NetworkIface =
  name :: string
  received :: nat
  transmitted :: nat

record SystemInfo =
  os_name :: "string option"
  hostname :: "string option"
  kernel_version :: "string option"
  os_version :: "string option"
  cpu_brand :: string
  cpu_physical_cores :: "nat option"
  total_memory :: nat
  used_memory :: nat
  total_swap :: nat
  used_swap :: nat
  uptime :: nat
  network_ifaces :: "NetworkIface list"

record AudioDevices =
  inputs :: "string list"
  outputs :: "string list"
  default_input :: "string option"
  default_output :: "string option"

record NetTestResult =
  external_ip :: "string option"
  http_latency_ms :: "real option"
  download_mbps :: "real option"
  upload_mbps :: "real option"
  error :: "string option"

text \<open>A value thrown by a rejected promise, represented by what \<open>String(e)\<close> gives.\<close>

type_synonym thrown = string

text \<open>The five \<open>useState\<close> cells of \<open>App\<close>.\<close>

record app_state =
  sys :: "SystemInfo option"
  audio :: "AudioDevices option"
  cameras :: "string list"
  testing :: bool
  net :: "NetTestResult option"

definition initial_state :: app_state where
  "initial_state = \<lparr>sys = None, audio = None, cameras = [], testing = False, net = None\<rparr>"

section \<open>The asynchronous handlers as a transition system\<close>

text \<open>
  \<open>refresh\<close> and \<open>runTest\<close> are \<open>async\<close> functions: each runs up to its next
  \<open>await invokeCmd(...)\<close>, is suspended there, and is resumed when that promise settles.
  A suspended handler is recorded by the \<open>await\<close> it stopped at. The closures capture only
  the state setters, so two suspended handlers at the same \<open>await\<close> are interchangeable.
\<close>

datatype cont = AwaitSys | AwaitAudio | AwaitCams | AwaitTest

record world =
  ui :: app_state
  pending :: "cont list"
  invoked :: "string list"
  console :: "(string \<times> thrown) list"

definition initial_world :: world where
  "initial_world = \<lparr>ui = initial_state, pending = [], invoked = [], console = []\<rparr>"

definition setSys :: "SystemInfo option \<Rightarrow> world \<Rightarrow> world" where
  "setSys v w = w\<lparr>ui := (ui w)\<lparr>sys := v\<rparr>\<rparr>"

definition setAudio :: "AudioDevices option \<Rightarrow> world \<Rightarrow> world" where
  "setAudio v w = w\<lparr>ui := (ui w)\<lparr>audio := v\<rparr>\<rparr>"

definition setCameras :: "string list \<Rightarrow> world \<Rightarrow> world" where
  "setCameras v w = w\<lparr>ui := (ui w)\<lparr>cameras := v\<rparr>\<rparr>"

definition setTesting :: "bool \<Rightarrow> world \<Rightarrow> world" where
  "setTesting v w = w\<lparr>ui := (ui w)\<lparr>testing := v\<rparr>\<rparr>"

definition setNet :: "NetTestResult option \<Rightarrow> world \<Rightarrow> world" where
  "setNet v w = w\<lparr>ui := (ui w)\<lparr>net := v\<rparr>\<rparr>"

text \<open>
  \<open>invokeCmd cmd\<close>: the call itself only records that the shell asked for \<open>cmd\<close>; its
  promise settles later, rejected (\<open>Inl\<close>) when the dynamic import or the backend call
  fails and fulfilled (\<open>Inr\<close>) with the backend's value otherwise.
\<close>

definition invokeCmd :: "string \<Rightarrow> world \<Rightarrow> world" where
  "invokeCmd cmd w = w\<lparr>invoked := invoked w @ [cmd]\<rparr>"

definition suspend :: "cont \<Rightarrow> world \<Rightarrow> world" where
  "suspend k w = w\<lparr>pending := pending w @ [k]\<rparr>"

definition resume :: "cont \<Rightarrow> world \<Rightarrow> world" where
  "resume k w = w\<lparr>pending := remove1 k (pending w)\<rparr>"

definition console_error :: "string \<Rightarrow> thrown \<Rightarrow> world \<Rightarrow> world" where
  "console_error msg e w = w\<lparr>console := console w @ [(msg, e)]\<rparr>"

text \<open>\<open>refresh\<close>, lines 48-59: the part before the first \<open>await\<close>, then one continuation
  per \<open>await\<close>. A rejection at any \<open>await\<close> lands in the single \<open>catch\<close>.\<close>

definition refresh :: "world \<Rightarrow> world" where
  "refresh w = suspend AwaitSys (invokeCmd ''get_system_info'' w)"

definition refresh_after_sys :: "thrown + SystemInfo \<Rightarrow> world \<Rightarrow> world" where
  "refresh_after_sys r w =
     (case r of
        Inl e \<Rightarrow> console_error ''refresh error'' e w
      | Inr s \<Rightarrow> suspend AwaitAudio (invokeCmd ''list_audio_devices'' (setSys (Some s) w)))"

definition refresh_after_audio :: "thrown + AudioDevices \<Rightarrow> world \<Rightarrow> world" where
  "refresh_after_audio r w =
     (case r of
        Inl e \<Rightarrow> console_error ''refresh error'' e w
      | Inr a \<Rightarrow> suspend AwaitCams (invokeCmd ''list_cameras'' (setAudio (Some a) w)))"

definition refresh_after_cams :: "thrown + string list \<Rightarrow> world \<Rightarrow> world" where
  "refresh_after_cams r w =
     (case r of
        Inl e \<Rightarrow> console_error ''refresh error'' e w
      | Inr cams \<Rightarrow> setCameras cams w)"

text \<open>\<open>runTest\<close>, lines 61-72. The \<open>catch\<close> builds \<open>{ error: String(e) }\<close>, every other
  field absent; the \<open>finally\<close> runs on both paths.\<close>

definition error_result :: "thrown \<Rightarrow> NetTestResult" where
  "error_result e =
     \<lparr>external_ip = None, http_latency_ms = None, download_mbps = None,
      upload_mbps = None, error = Some e\<rparr>"

definition runTest :: "world \<Rightarrow> world" where
  "runTest w =
     suspend AwaitTest (invokeCmd ''run_network_test'' (setNet None (setTesting True w)))"

definition runTest_after :: "thrown + NetTestResult \<Rightarrow> world \<Rightarrow> world" where
  "runTest_after r w =
     setTesting False
       (case r of
          Inr x \<Rightarrow> setNet (Some x) w
        | Inl e \<Rightarrow> setNet (Some (error_result e)) w)"

text \<open>
  What can happen to the mounted component: the mount effect (\<open>useEffect\<close> with an empty
  dependency list calls \<open>refresh\<close>), a click on either button, or the settling of the
  promise a suspended handler waits for. The run-test button carries
  \<open>disabled={testing}\<close>, and a disabled button dispatches no click. A settle event with
  no handler waiting for it cannot occur and leaves the world as it is.
\<close>

datatype event =
    Mount
  | ClickRefresh
  | ClickRunTest
  | SettleSys "thrown + SystemInfo"
  | SettleAudio "thrown + AudioDevices"
  | SettleCams "thrown + string list"
  | SettleTest "thrown + NetTestResult"

fun step :: "event \<Rightarrow> world \<Rightarrow> world" where
  "step Mount w = refresh w"
| "step ClickRefresh w = refresh w"
| "step ClickRunTest w = (if testing (ui w) then w else runTest w)"
| "step (SettleSys r) w =
     (if AwaitSys \<in> set (pending w) then refresh_after_sys r (resume AwaitSys w) else w)"
| "step (SettleAudio r) w =
     (if AwaitAudio \<in> set (pending w) then refresh_after_audio r (resume AwaitAudio w) else w)"
| "step (SettleCams r) w =
     (if AwaitCams \<in> set (pending w) then refresh_after_cams r (resume AwaitCams w) else w)"
| "step (SettleTest r) w =
     (if AwaitTest \<in> set (pending w) then runTest_after r (resume AwaitTest w) else w)"

fun run :: "event list \<Rightarrow> world \<Rightarrow> world" where
  "run [] w = w"
| "run (e # es) w = run es (step e w)"

text \<open>One \<open>refresh\<close> from start to end with nothing else in between, given how each of
  its three promises settles (a later outcome is not consumed when an earlier one
  rejects, as no handler waits for it).\<close>

definition refresh_alone ::
  "thrown + SystemInfo \<Rightarrow> thrown + AudioDevices \<Rightarrow> thrown + string list \<Rightarrow> world \<Rightarrow> world" where
  "refresh_alone r1 r2 r3 w = run [ClickRefresh, SettleSys r1, SettleAudio r2, SettleCams r3] w"

definition calls :: "string \<Rightarrow> world \<Rightarrow> nat" where
  "calls cmd w = count_list (invoked w) cmd"

definition in_flight :: "cont \<Rightarrow> world \<Rightarrow> nat" where
  "in_flight k w = count_list (pending w) k"

definition starts_refresh :: "event \<Rightarrow> bool" where
  "starts_refresh e = (e = Mount \<or> e = ClickRefresh)"

text \<open>The events that resume a refresh past a query that succeeded.\<close>

fun sys_fulfilled :: "event \<Rightarrow> bool" where
  "sys_fulfilled (SettleSys (Inr s)) = True"
| "sys_fulfilled _ = False"

fun audio_fulfilled :: "event \<Rightarrow> bool" where
  "audio_fulfilled (SettleAudio (Inr a)) = True"
| "audio_fulfilled _ = False"

section \<open>What the shell displays\<close>

text \<open>
  The JSX of lines 78-146, one function per section. A section is the list of elements it
  renders; \<open>c && <x/>\<close> contributes \<open><x/>\<close> when \<open>c\<close> is truthy and nothing otherwise.
  The fixed captions are constructors of their own.
\<close>

datatype cell =
    Str string
  | Num nat
  | Ms real
  | Mbps real
  | Err string

datatype caption = Caption_testing | Caption_run_test

datatype elem =
    Button_refresh
  | Button_runTest bool caption
  | P_loading
  | Sys_grid "cell list"
  | Audio_grid "string list" "string list"
  | P_defaults string string
  | P_no_cameras
  | Ul_cameras "string list"
  | P_net_hint
  | Net_grid "cell list"

definition or_dash :: "string option \<Rightarrow> string" where
  "or_dash v = (case v of None \<Rightarrow> ''-'' | Some s \<Rightarrow> s)"

text \<open>\<open>Math.round(n / 1024)\<close> on a non-negative integer: halves round up.\<close>

definition round_kb :: "nat \<Rightarrow> nat" where
  "round_kb n = (n + 512) div 1024"

definition actions_view :: "app_state \<Rightarrow> elem list" where
  "actions_view st =
     [Button_refresh,
      Button_runTest (testing st) (if testing st then Caption_testing else Caption_run_test)]"

definition sys_view :: "app_state \<Rightarrow> elem list" where
  "sys_view st =
     (case sys st of
        None \<Rightarrow> [P_loading]
      | Some s \<Rightarrow>
          [Sys_grid
            [Str (or_dash (os_name s)), Str (or_dash (hostname s)),
             Str (or_dash (kernel_version s)), Str (or_dash (os_version s)),
             Str (cpu_brand s),
             (case cpu_physical_cores s of None \<Rightarrow> Str ''-'' | Some n \<Rightarrow> Num n),
             Num (round_kb (used_memory s)), Num (round_kb (total_memory s)),
             Num (round_kb (used_swap s)), Num (round_kb (total_swap s)),
             Num (uptime s div 3600)]])"

definition audio_view :: "app_state \<Rightarrow> elem list" where
  "audio_view st =
     (case audio st of
        None \<Rightarrow> [P_loading]
      | Some a \<Rightarrow>
          [Audio_grid (inputs a) (outputs a),
           P_defaults (or_dash (default_input a)) (or_dash (default_output a))])"

definition cameras_view :: "app_state \<Rightarrow> elem list" where
  "cameras_view st =
     (if length (cameras st) = 0 then [P_no_cameras] else [])
     @ (if length (cameras st) \<noteq> 0 then [Ul_cameras (cameras st)] else [])"

definition net_view :: "app_state \<Rightarrow> elem list" where
  "net_view st =
     (case net st of
        None \<Rightarrow> [P_net_hint]
      | Some n \<Rightarrow>
          [Net_grid
            ([Str (or_dash (external_ip n)),
              (case http_latency_ms n of None \<Rightarrow> Str ''-'' | Some x \<Rightarrow> Ms x),
              (case download_mbps n of None \<Rightarrow> Str ''-'' | Some x \<Rightarrow> Mbps x),
              (case upload_mbps n of None \<Rightarrow> Str ''-'' | Some x \<Rightarrow> Mbps x)]
             @ (case error n of
                  None \<Rightarrow> []
                | Some e \<Rightarrow> if e = [] then [] else [Err e]))])"

record view =
  actions :: "elem list"
  sys_section :: "elem list"
  audio_section :: "elem list"
  camera_section :: "elem list"
  net_section :: "elem list"

definition App :: "app_state \<Rightarrow> view" where
  "App st =
     \<lparr>actions = actions_view st, sys_section = sys_view st, audio_section = audio_view st,
      camera_section = cameras_view st, net_section = net_view st\<rparr>"

section \<open>The backend commands\<close>

text \<open>
  The backend (src-tauri/src/main.rs) is not among the sources; only its caller App.tsx
  is. The two commands whose own behaviour is in question are modelled from the
  specification, over the facts they read from the outside world.
\<close>

text \<open>Modelled from the spec: the outcome of each of the three sub-measurements of
  \<open>run_network_test\<close> (section 4.3), a failure reason (\<open>Inl\<close>) or a value (\<open>Inr\<close>): the
  response body of the IP service, the round trip in milliseconds, and the bytes received
  with the elapsed seconds of the download.\<close>

record probes =
  ip_lookup :: "string + string"
  latency :: "string + real"
  download :: "string + nat \<times> real"

definition succeeded :: "'e + 'a \<Rightarrow> bool" where
  "succeeded r = (case r of Inl _ \<Rightarrow> False | Inr _ \<Rightarrow> True)"

definition failure_of :: "'e + 'a \<Rightarrow> 'e list" where
  "failure_of r = (case r of Inl m \<Rightarrow> [m] | Inr _ \<Rightarrow> [])"

text \<open>Modelled from the spec: "the response body (trimmed)" of the IP lookup, with
  blanks, tabs and line ends removed at both ends.\<close>

definition is_blank :: "char \<Rightarrow> bool" where
  "is_blank c = (c = CHR '' '' \<or> c = CHR 0x09 \<or> c = CHR 0x0A \<or> c = CHR 0x0D)"

definition trim :: "string \<Rightarrow> string" where
  "trim s = rev (dropWhile is_blank (rev (dropWhile is_blank s)))"

text \<open>Modelled from the spec: the running error message, the failure reasons in the
  order of the measurements, joined by a separator the spec leaves open.\<close>

fun join :: "string \<Rightarrow> string list \<Rightarrow> string" where
  "join sep [] = []"
| "join sep [m] = m"
| "join sep (m # m' # ms) = m @ sep @ join sep (m' # ms)"

definition failures :: "probes \<Rightarrow> string list" where
  "failures p = failure_of (ip_lookup p) @ failure_of (latency p) @ failure_of (download p)"

text \<open>Modelled from the spec: the throughput formula of section 4.3, step 3.\<close>

definition mbps :: "nat \<Rightarrow> real \<Rightarrow> real" where
  "mbps bytes_received elapsed_seconds =
     (real bytes_received * 8) / (elapsed_seconds * 1000000)"

text \<open>Modelled from the spec: \<open>run_network_test\<close> of the missing backend (section 4.3):
  each successful sub-measurement fills its field, \<open>upload_mbps\<close> is never filled, and
  \<open>error\<close> is absent when nothing failed and the joined failure reasons otherwise.\<close>

definition run_network_test :: "string \<Rightarrow> probes \<Rightarrow> NetTestResult" where
  "run_network_test sep p =
     \<lparr>external_ip = (case ip_lookup p of Inl _ \<Rightarrow> None | Inr body \<Rightarrow> Some (trim body)),
      http_latency_ms = (case latency p of Inl _ \<Rightarrow> None | Inr ms \<Rightarrow> Some ms),
      download_mbps =
        (case download p of Inl _ \<Rightarrow> None | Inr (n, t) \<Rightarrow> Some (mbps n t)),
      upload_mbps = None,
      error = (if failures p = [] then None else Some (join sep (failures p)))\<rparr>"

text \<open>Modelled from the spec: how the promise of \<open>invokeCmd('run_network_test')\<close> settles
  when the backend is reached: section 6 has the command never throw.\<close>

definition run_network_test_reply :: "string \<Rightarrow> probes \<Rightarrow> thrown + NetTestResult" where
  "run_network_test_reply sep p = Inr (run_network_test sep p)"

text \<open>Modelled from the spec: what the host lets \<open>get_system_info\<close> read (section 4.1).
  The readings the spec calls optional may be undeterminable (\<open>None\<close>); the CPU brand is a
  string, possibly empty; sizes, uptime and byte counters are unsigned integers.\<close>

record host =
  host_os_name :: "string option"
  host_hostname :: "string option"
  host_kernel_version :: "string option"
  host_os_version :: "string option"
  host_cpu_brand :: string
  host_physical_cores :: "nat option"
  host_total_memory :: nat
  host_used_memory :: nat
  host_total_swap :: nat
  host_used_swap :: nat
  host_uptime :: nat
  host_ifaces :: "NetworkIface list"

text \<open>Modelled from the spec: \<open>get_system_info\<close> of the missing backend (section 4.1), a
  flat record of the readings, an undeterminable one staying absent.\<close>

definition get_system_info :: "host \<Rightarrow> SystemInfo" where
  "get_system_info h =
     \<lparr>os_name = host_os_name h, hostname = host_hostname h,
      kernel_version = host_kernel_version h, os_version = host_os_version h,
      cpu_brand = host_cpu_brand h, cpu_physical_cores = host_physical_cores h,
      total_memory = host_total_memory h, used_memory = host_used_memory h,
      total_swap = host_total_swap h, used_swap = host_used_swap h,
      uptime = host_uptime h, network_ifaces = host_ifaces h\<rparr>"

text \<open>Modelled from the spec: how the promise of \<open>invokeCmd('get_system_info')\<close> settles
  when the backend is reached: section 4.1 has the query always succeed.\<close>

definition get_system_info_reply :: "host \<Rightarrow> thrown + SystemInfo" where
  "get_system_info_reply h = Inr (get_system_info h)"

section \<open>Auxiliary notions\<close>

text \<open>The link between the \<open>testing\<close> flag and the suspended \<open>runTest\<close> handlers.\<close>

definition test_inv :: "world \<Rightarrow> bool" where
  "test_inv w = (in_flight AwaitTest w = (if testing (ui w) then 1 else 0))"

text \<open>Concrete backend values for the scenarios evaluated below.\<close>

definition sample_sys :: SystemInfo where
  "sample_sys =
     \<lparr>os_name = Some ''macOS'', hostname = None, kernel_version = Some ''23.1.0'',
      os_version = Some ''14.1'', cpu_brand = ''Apple M2'', cpu_physical_cores = Some 8,
      total_memory = 16777216, used_memory = 8388608, total_swap = 0, used_swap = 0,
      uptime = 7300, network_ifaces = [\<lparr>name = ''en0'', received = 10, transmitted = 20\<rparr>]\<rparr>"

definition sample_audio :: AudioDevices where
  "sample_audio =
     \<lparr>inputs = [''Built-in Microphone''], outputs = [''Built-in Output''],
      default_input = Some ''Built-in Microphone'', default_output = None\<rparr>"

section \<open>Basic facts about the transition system\<close>

lemmas setters = setSys_def setAudio_def setCameras_def setTesting_def setNet_def
  invokeCmd_def suspend_def resume_def console_error_def

lemmas handlers = refresh_def refresh_after_sys_def refresh_after_audio_def
  refresh_after_cams_def runTest_def runTest_after_def

lemma run_append: "run (xs @ ys) w = run ys (run xs w)"
  by (induction xs arbitrary: w) simp_all

lemma in_set_count: "k \<in> set xs \<Longrightarrow> 0 < count_list xs k"
  using count_list_0_iff [of xs k] by auto

lemma initial_calls: "calls c initial_world = 0" "in_flight k initial_world = 0"
  by (simp_all add: calls_def in_flight_def initial_world_def)

subsection \<open>At most one network test in flight\<close>

lemma step_test_inv: "test_inv w \<Longrightarrow> test_inv (step e w)"
  by (cases e)
     (auto simp: test_inv_def in_flight_def handlers setters count_list_remove1
           count_notin dest: in_set_count split: sum.splits if_splits)

lemma run_test_inv: "test_inv w \<Longrightarrow> test_inv (run evs w)"
  by (induction evs arbitrary: w) (simp_all add: step_test_inv)

lemma initial_test_inv: "test_inv initial_world"
  by (simp add: test_inv_def in_flight_def initial_world_def initial_state_def)

lemma settle_test_resets:
  assumes "test_inv w"
  shows "\<not> testing (ui (step (SettleTest r) w))"
proof (cases "AwaitTest \<in> set (pending w)")
  case True
  then show ?thesis
    by (simp add: runTest_after_def setters split: sum.splits)
next
  case False
  then have "count_list (pending w) AwaitTest = 0" by (rule count_notin)
  with assms False show ?thesis
    by (simp add: test_inv_def in_flight_def split: if_splits)
qed

text \<open>
  Claim C5. Along every sequence of events from the initial world, at most one
  \<open>runTest\<close> handler is suspended, and the \<open>testing\<close> flag is set exactly while one is.
  Whenever a test's promise settles, fulfilled or rejected, \<open>testing\<close> is false
  afterwards. While \<open>testing\<close> is set the run-test button is rendered disabled, and a
  click on it starts nothing.
\<close>

theorem run_test_never_overlaps:
  "in_flight AwaitTest (run evs initial_world) \<le> 1
   \<and> testing (ui (run evs initial_world)) = (in_flight AwaitTest (run evs initial_world) = 1)
   \<and> testing (ui (run (evs @ [SettleTest r]) initial_world)) = False
   \<and> step ClickRunTest (setTesting True w) = setTesting True w
   \<and> actions_view (ui (setTesting True w))
       = [Button_refresh, Button_runTest True Caption_testing]"
proof -
  have inv: "test_inv (run evs initial_world)"
    by (rule run_test_inv [OF initial_test_inv])
  have a: "in_flight AwaitTest (run evs initial_world) \<le> 1"
    using inv by (simp add: test_inv_def)
  have b: "testing (ui (run evs initial_world))
             = (in_flight AwaitTest (run evs initial_world) = 1)"
    using inv by (simp add: test_inv_def)
  have c: "testing (ui (run (evs @ [SettleTest r]) initial_world)) = False"
    using settle_test_resets [OF inv, of r] by (simp add: run_append)
  have d: "step ClickRunTest (setTesting True w) = setTesting True w"
    by (simp add: setTesting_def)
  have e: "actions_view (ui (setTesting True w))
             = [Button_refresh, Button_runTest True Caption_testing]"
    by (simp add: setTesting_def actions_view_def)
  show ?thesis by (intro conjI a b c d e)
qed

subsection \<open>How often each command is invoked\<close>

lemma step_calls_sys:
  "calls ''get_system_info'' (step e w)
     = calls ''get_system_info'' w + (if starts_refresh e then 1 else 0)"
  by (cases e) (auto simp: calls_def starts_refresh_def handlers setters split: sum.splits)

lemma run_calls_sys:
  "calls ''get_system_info'' (run evs w)
     = calls ''get_system_info'' w + length (filter starts_refresh evs)"
  by (induction evs arbitrary: w) (simp_all add: step_calls_sys)

lemma step_calls_audio:
  "calls ''list_audio_devices'' (step e w) + in_flight AwaitSys (step e w)
     \<le> calls ''list_audio_devices'' w + in_flight AwaitSys w
        + (if starts_refresh e then 1 else 0)"
  by (cases e)
     (auto simp: calls_def in_flight_def starts_refresh_def handlers setters
           count_list_remove1 count_notin dest: in_set_count split: sum.splits)

lemma run_calls_audio:
  "calls ''list_audio_devices'' (run evs w) + in_flight AwaitSys (run evs w)
     \<le> calls ''list_audio_devices'' w + in_flight AwaitSys w
        + length (filter starts_refresh evs)"
proof (induction evs arbitrary: w)
  case Nil
  show ?case by simp
next
  case (Cons e es)
  from Cons.IH [of "step e w"] step_calls_audio [of e w]
  show ?case by (simp split: if_splits)
qed

lemma step_calls_cams:
  "calls ''list_cameras'' w + in_flight AwaitAudio w \<le> calls ''list_audio_devices'' w
   \<Longrightarrow> calls ''list_cameras'' (step e w) + in_flight AwaitAudio (step e w)
        \<le> calls ''list_audio_devices'' (step e w)"
  by (cases e)
     (auto simp: calls_def in_flight_def handlers setters
           count_list_remove1 count_notin dest: in_set_count split: sum.splits)

lemma run_calls_cams:
  "calls ''list_cameras'' w + in_flight AwaitAudio w \<le> calls ''list_audio_devices'' w
   \<Longrightarrow> calls ''list_cameras'' (run evs w) + in_flight AwaitAudio (run evs w)
        \<le> calls ''list_audio_devices'' (run evs w)"
  by (induction evs arbitrary: w) (simp_all add: step_calls_cams)

lemma step_calls_test:
  "calls ''run_network_test'' (step e w)
     \<le> calls ''run_network_test'' w + (if e = ClickRunTest then 1 else 0)"
  by (cases e) (auto simp: calls_def handlers setters split: sum.splits)

lemma run_calls_test:
  "calls ''run_network_test'' (run evs w)
     \<le> calls ''run_network_test'' w + count_list evs ClickRunTest"
proof (induction evs arbitrary: w)
  case Nil
  show ?case by simp
next
  case (Cons e es)
  from Cons.IH [of "step e w"] step_calls_test [of e w]
  show ?case by (simp split: if_splits)
qed

lemma step_audio_after_success:
  "calls ''list_audio_devices'' (step e w)
     \<le> calls ''list_audio_devices'' w + (if sys_fulfilled e then 1 else 0)"
  by (cases e) (auto simp: calls_def handlers setters split: sum.splits)

lemma run_audio_after_success:
  "calls ''list_audio_devices'' (run evs w)
     \<le> calls ''list_audio_devices'' w + length (filter sys_fulfilled evs)"
proof (induction evs arbitrary: w)
  case Nil
  show ?case by simp
next
  case (Cons e es)
  from Cons.IH [of "step e w"] step_audio_after_success [of e w]
  show ?case by (simp split: if_splits)
qed

lemma step_cams_after_success:
  "calls ''list_cameras'' (step e w)
     \<le> calls ''list_cameras'' w + (if audio_fulfilled e then 1 else 0)"
  by (cases e) (auto simp: calls_def handlers setters split: sum.splits)

lemma run_cams_after_success:
  "calls ''list_cameras'' (run evs w)
     \<le> calls ''list_cameras'' w + length (filter audio_fulfilled evs)"
proof (induction evs arbitrary: w)
  case Nil
  show ?case by simp
next
  case (Cons e es)
  from Cons.IH [of "step e w"] step_cams_after_success [of e w]
  show ?case by (simp split: if_splits)
qed

text \<open>
  Claim C4, as stated, fails: at startup with a \<open>list_audio_devices\<close> that rejects, the
  refresh has finished (nothing is suspended), \<open>get_system_info\<close> and
  \<open>list_audio_devices\<close> have been invoked once each, and \<open>list_cameras\<close> not at all.
\<close>

theorem startup_failure_skips_cameras:
  "pending (run [Mount, SettleSys (Inr sample_sys), SettleAudio (Inl ''permission denied'')]
              initial_world) = []
   \<and> invoked (run [Mount, SettleSys (Inr sample_sys), SettleAudio (Inl ''permission denied'')]
                 initial_world) = [''get_system_info'', ''list_audio_devices'']
   \<and> calls ''list_cameras''
         (run [Mount, SettleSys (Inr sample_sys), SettleAudio (Inl ''permission denied'')]
              initial_world) = 0"
  by (simp add: calls_def handlers setters initial_world_def)

text \<open>
  Claim C4, amended. Along every sequence of events from the initial world,
  \<open>get_system_info\<close> has been invoked exactly once per mount or refresh click;
  \<open>list_audio_devices\<close> at most that often and at most once per fulfilled
  \<open>get_system_info\<close>; \<open>list_cameras\<close> at most as often as \<open>list_audio_devices\<close> and at most
  once per fulfilled \<open>list_audio_devices\<close>. A rejected query invokes nothing, in any world.
  A refresh with nothing else suspended invokes \<open>get_system_info\<close> alone when that
  rejects, and \<open>get_system_info\<close> and \<open>list_audio_devices\<close> alone when the latter rejects;
  when both succeed the three are invoked once each, in this order. The mount effect does
  what a refresh click does. Every invocation of \<open>run_network_test\<close> is accounted for by
  a run-test click of its own.
\<close>

theorem refresh_invocation_counts:
  "calls ''get_system_info'' (run evs initial_world) = length (filter starts_refresh evs)
   \<and> calls ''list_audio_devices'' (run evs initial_world)
       \<le> length (filter starts_refresh evs)
   \<and> calls ''list_audio_devices'' (run evs initial_world)
       \<le> length (filter sys_fulfilled evs)
   \<and> calls ''list_cameras'' (run evs initial_world)
       \<le> calls ''list_audio_devices'' (run evs initial_world)
   \<and> calls ''list_cameras'' (run evs initial_world)
       \<le> length (filter audio_fulfilled evs)
   \<and> invoked (step (SettleSys (Inl x)) w) = invoked w
   \<and> invoked (step (SettleAudio (Inl x)) w) = invoked w
   \<and> invoked (step (SettleCams r) w) = invoked w
   \<and> invoked (refresh_alone (Inl x) r2 r3 (w\<lparr>pending := []\<rparr>))
       = invoked w @ [''get_system_info'']
   \<and> invoked (refresh_alone (Inr s) (Inl x) r3 (w\<lparr>pending := []\<rparr>))
       = invoked w @ [''get_system_info'', ''list_audio_devices'']
   \<and> invoked (refresh_alone (Inr s) (Inr a) r3 w)
       = invoked w @ [''get_system_info'', ''list_audio_devices'', ''list_cameras'']
   \<and> step Mount w = step ClickRefresh w
   \<and> calls ''run_network_test'' (run evs initial_world) \<le> count_list evs ClickRunTest"
proof -
  have a: "calls ''get_system_info'' (run evs initial_world)
             = length (filter starts_refresh evs)"
    using run_calls_sys [of evs initial_world] by (simp add: initial_calls)
  have b: "calls ''list_audio_devices'' (run evs initial_world)
             \<le> length (filter starts_refresh evs)"
    using run_calls_audio [of evs initial_world] by (simp add: initial_calls)
  have b': "calls ''list_audio_devices'' (run evs initial_world)
             \<le> length (filter sys_fulfilled evs)"
    using run_audio_after_success [of evs initial_world] by (simp add: initial_calls)
  have c: "calls ''list_cameras'' (run evs initial_world)
             \<le> calls ''list_audio_devices'' (run evs initial_world)"
    using run_calls_cams [of initial_world evs] by (simp add: initial_calls)
  have c': "calls ''list_cameras'' (run evs initial_world)
             \<le> length (filter audio_fulfilled evs)"
    using run_cams_after_success [of evs initial_world] by (simp add: initial_calls)
  have r1: "invoked (step (SettleSys (Inl x)) w) = invoked w"
    by (simp add: handlers setters)
  have r2: "invoked (step (SettleAudio (Inl x)) w) = invoked w"
    by (simp add: handlers setters)
  have r3: "invoked (step (SettleCams r) w) = invoked w"
    by (simp add: handlers setters split: sum.splits)
  have d1: "invoked (refresh_alone (Inl x) r2 r3 (w\<lparr>pending := []\<rparr>))
       = invoked w @ [''get_system_info'']"
    by (simp add: refresh_alone_def handlers setters)
  have d2: "invoked (refresh_alone (Inr s) (Inl x) r3 (w\<lparr>pending := []\<rparr>))
       = invoked w @ [''get_system_info'', ''list_audio_devices'']"
    by (simp add: refresh_alone_def handlers setters)
  have d: "invoked (refresh_alone (Inr s) (Inr a) r3 w)
             = invoked w @ [''get_system_info'', ''list_audio_devices'', ''list_cameras'']"
    by (simp add: refresh_alone_def handlers setters split: sum.splits)
  have e: "step Mount w = step ClickRefresh w" by simp
  have f: "calls ''run_network_test'' (run evs initial_world) \<le> count_list evs ClickRunTest"
    using run_calls_test [of evs initial_world] by (simp add: initial_calls)
  show ?thesis by (intro conjI a b b' c c' r1 r2 r3 d1 d2 d e f)
qed

subsection \<open>Refresh in isolation\<close>

text \<open>
  Claim C9. A refresh that runs with no other handler suspended stops at the first query
  that rejects: the later queries are not invoked, only the state cells assigned before
  the rejection have changed, and the error goes to the console alone. Whatever the three
  outcomes, a refresh changes neither \<open>net\<close> nor \<open>testing\<close>, so the one place where the
  shell displays an error shows the same as before. With other handlers suspended as
  well, a rejection still changes no state cell and invokes nothing.
\<close>

theorem refresh_stops_at_first_failure:
  assumes "pending w = []"
  shows "refresh_alone (Inl e) r2 r3 w
           = w\<lparr>invoked := invoked w @ [''get_system_info''],
                console := console w @ [(''refresh error'', e)]\<rparr>
         \<and> refresh_alone (Inr s) (Inl e) r3 w
           = w\<lparr>ui := (ui w)\<lparr>sys := Some s\<rparr>,
                invoked := invoked w @ [''get_system_info'', ''list_audio_devices''],
                console := console w @ [(''refresh error'', e)]\<rparr>
         \<and> refresh_alone (Inr s) (Inr a) (Inl e) w
           = w\<lparr>ui := (ui w)\<lparr>sys := Some s, audio := Some a\<rparr>,
                invoked := invoked w @ [''get_system_info'', ''list_audio_devices'', ''list_cameras''],
                console := console w @ [(''refresh error'', e)]\<rparr>
         \<and> net (ui (refresh_alone r1 r2 r3 w)) = net (ui w)
         \<and> testing (ui (refresh_alone r1 r2 r3 w)) = testing (ui w)
         \<and> net_view (ui (refresh_alone r1 r2 r3 w)) = net_view (ui w)
         \<and> ui (step (SettleSys (Inl e)) v) = ui v
         \<and> invoked (step (SettleSys (Inl e)) v) = invoked v
         \<and> ui (step (SettleAudio (Inl e)) v) = ui v
         \<and> invoked (step (SettleAudio (Inl e)) v) = invoked v
         \<and> ui (step (SettleCams (Inl e)) v) = ui v
         \<and> invoked (step (SettleCams (Inl e)) v) = invoked v"
  using assms
  by (simp add: refresh_alone_def handlers setters net_view_def split: sum.splits)

theorem refresh_stops_at_first_failure_witness:
  "pending initial_world = []
   \<and> refresh_alone (Inr sample_sys) (Inl ''permission denied'') (Inr [''cam'']) initial_world
       = \<lparr>ui = \<lparr>sys = Some sample_sys, audio = None, cameras = [], testing = False, net = None\<rparr>,
          pending = [], invoked = [''get_system_info'', ''list_audio_devices''],
          console = [(''refresh error'', ''permission denied'')]\<rparr>"
proof -
  have h: "pending initial_world = []" by (simp add: initial_world_def)
  show ?thesis
    using h refresh_stops_at_first_failure [OF h, where s = sample_sys and e = "''permission denied''"
                  and ?r3.0 = "Inr [''cam'']"]
    by (simp add: initial_world_def initial_state_def)
qed

section \<open>Failed device enumeration\<close>

text \<open>
  Claim C3, as stated, fails. After a first refresh that succeeded, a second one in which
  \<open>list_audio_devices\<close> rejects leaves the audio section showing the devices of the first
  refresh; likewise the camera section when \<open>list_cameras\<close> rejects. When the very first
  enumeration rejects, the audio section shows the loading paragraph rather than nothing.
\<close>

theorem stale_display_after_failed_enumeration:
  "audio_view (ui (run [Mount, SettleSys (Inr sample_sys), SettleAudio (Inr sample_audio),
                       SettleCams (Inr [''FaceTime HD Camera'']),
                       ClickRefresh, SettleSys (Inr sample_sys),
                       SettleAudio (Inl ''permission denied'')] initial_world))
     = [Audio_grid [''Built-in Microphone''] [''Built-in Output''],
        P_defaults ''Built-in Microphone'' ''-'']
   \<and> cameras_view (ui (run [Mount, SettleSys (Inr sample_sys), SettleAudio (Inr sample_audio),
                       SettleCams (Inr [''FaceTime HD Camera'']),
                       ClickRefresh, SettleSys (Inr sample_sys), SettleAudio (Inr sample_audio),
                       SettleCams (Inl ''permission denied'')] initial_world))
     = [Ul_cameras [''FaceTime HD Camera'']]
   \<and> audio_view (ui (run [Mount, SettleSys (Inr sample_sys),
                       SettleAudio (Inl ''permission denied'')] initial_world))
     = [P_loading]"
  by (simp add: handlers setters initial_world_def initial_state_def sample_audio_def
        audio_view_def cameras_view_def or_dash_def)

text \<open>
  Claim C3, amended. When the promise of \<open>list_audio_devices\<close> or of \<open>list_cameras\<close>
  rejects, the waiting refresh logs that one error to the console, invokes nothing
  further and leaves every state cell as it was, so the whole display is the one from
  before the failure; nothing from the failed call is shown.
\<close>

theorem failed_enumeration_keeps_display:
  assumes "AwaitAudio \<in> set (pending w)" and "AwaitCams \<in> set (pending w')"
  shows "ui (step (SettleAudio (Inl e)) w) = ui w
         \<and> App (ui (step (SettleAudio (Inl e)) w)) = App (ui w)
         \<and> console (step (SettleAudio (Inl e)) w) = console w @ [(''refresh error'', e)]
         \<and> invoked (step (SettleAudio (Inl e)) w) = invoked w
         \<and> ui (step (SettleCams (Inl e)) w') = ui w'
         \<and> App (ui (step (SettleCams (Inl e)) w')) = App (ui w')
         \<and> console (step (SettleCams (Inl e)) w') = console w' @ [(''refresh error'', e)]
         \<and> invoked (step (SettleCams (Inl e)) w') = invoked w'"
  using assms by (simp add: handlers setters)

theorem failed_enumeration_keeps_display_witness:
  "AwaitAudio \<in> set (pending (run [Mount, SettleSys (Inr sample_sys)] initial_world))
   \<and> AwaitCams \<in> set (pending (run [Mount, SettleSys (Inr sample_sys),
                                     SettleAudio (Inr sample_audio)] initial_world))
   \<and> ui (step (SettleAudio (Inl ''permission denied''))
            (run [Mount, SettleSys (Inr sample_sys)] initial_world))
       = ui (run [Mount, SettleSys (Inr sample_sys)] initial_world)
   \<and> console (step (SettleCams (Inl ''permission denied''))
            (run [Mount, SettleSys (Inr sample_sys), SettleAudio (Inr sample_audio)] initial_world))
       = [(''refresh error'', ''permission denied'')]"
proof -
  have h1: "AwaitAudio \<in> set (pending (run [Mount, SettleSys (Inr sample_sys)] initial_world))"
    by (simp add: handlers setters initial_world_def)
  have h2: "AwaitCams \<in> set (pending (run [Mount, SettleSys (Inr sample_sys),
                                     SettleAudio (Inr sample_audio)] initial_world))"
    by (simp add: handlers setters initial_world_def)
  have c: "console (run [Mount, SettleSys (Inr sample_sys), SettleAudio (Inr sample_audio)]
             initial_world) = []"
    by (simp add: handlers setters initial_world_def)
  show ?thesis
    using h1 h2 c failed_enumeration_keeps_display [OF h1 h2, where e = "''permission denied''"] by simp
qed

section \<open>The camera section\<close>

text \<open>
  Claim C10. The \<open>cameras\<close> cell starts as the empty list, and the camera section shows
  the no-cameras paragraph exactly when the list is empty. So the section reads the same
  when the host reports zero cameras, while the enumeration is still awaited, and when
  \<open>list_cameras\<close> or an earlier query of the refresh has rejected.
\<close>

theorem empty_camera_list_is_ambiguous:
  "cameras initial_state = []
   \<and> (P_no_cameras \<in> set (cameras_view st)) = (cameras st = [])
   \<and> (cameras_view st = [P_no_cameras]) = (cameras st = [])
   \<and> cameras_view (ui (run [Mount, SettleSys (Inr s), SettleAudio (Inr a), SettleCams (Inr [])]
                          initial_world)) = [P_no_cameras]
   \<and> cameras_view (ui (run [Mount, SettleSys (Inr s), SettleAudio (Inr a)] initial_world))
       = [P_no_cameras]
   \<and> cameras_view (ui (run [Mount, SettleSys (Inr s), SettleAudio (Inr a), SettleCams (Inl e)]
                          initial_world)) = [P_no_cameras]
   \<and> cameras_view (ui (run [Mount, SettleSys (Inr s), SettleAudio (Inl e)] initial_world))
       = [P_no_cameras]"
  by (simp add: handlers setters initial_world_def initial_state_def cameras_view_def)

section \<open>The network test\<close>

lemma failures_empty:
  "(failures p = [])
     = (succeeded (ip_lookup p) \<and> succeeded (latency p) \<and> succeeded (download p))"
  by (simp add: failures_def failure_of_def succeeded_def split: sum.splits)

text \<open>
  Claim C1. The \<open>error\<close> field of the result is absent exactly when all three
  sub-measurements succeeded; otherwise it is the failure reasons of the failing ones,
  joined in measurement order. A field is absent exactly when its own sub-measurement
  failed: with only the IP lookup failing, latency and throughput are filled and the
  error is the lookup's reason; with all three failing, the three fields are absent and
  the error holds the three reasons.
\<close>

theorem network_test_error_aggregation:
  "(error (run_network_test sep p) = None)
     = (succeeded (ip_lookup p) \<and> succeeded (latency p) \<and> succeeded (download p))
   \<and> error (run_network_test sep p)
       = (if failures p = [] then None else Some (join sep (failures p)))
   \<and> failures p = failure_of (ip_lookup p) @ failure_of (latency p) @ failure_of (download p)
   \<and> (external_ip (run_network_test sep p) = None) = (\<not> succeeded (ip_lookup p))
   \<and> (http_latency_ms (run_network_test sep p) = None) = (\<not> succeeded (latency p))
   \<and> (download_mbps (run_network_test sep p) = None) = (\<not> succeeded (download p))
   \<and> run_network_test sep \<lparr>ip_lookup = Inl m1, latency = Inr ms, download = Inr (n, t)\<rparr>
       = \<lparr>external_ip = None, http_latency_ms = Some ms, download_mbps = Some (mbps n t),
          upload_mbps = None, error = Some m1\<rparr>
   \<and> run_network_test sep \<lparr>ip_lookup = Inl m1, latency = Inl m2, download = Inl m3\<rparr>
       = \<lparr>external_ip = None, http_latency_ms = None, download_mbps = None,
          upload_mbps = None, error = Some (m1 @ sep @ m2 @ sep @ m3)\<rparr>"
proof -
  have a: "(error (run_network_test sep p) = None)
     = (succeeded (ip_lookup p) \<and> succeeded (latency p) \<and> succeeded (download p))"
    by (simp add: run_network_test_def failures_empty)
  have b: "error (run_network_test sep p)
       = (if failures p = [] then None else Some (join sep (failures p)))"
    by (simp add: run_network_test_def)
  have c: "failures p = failure_of (ip_lookup p) @ failure_of (latency p) @ failure_of (download p)"
    by (simp add: failures_def)
  have d: "(external_ip (run_network_test sep p) = None) = (\<not> succeeded (ip_lookup p))"
    by (simp add: run_network_test_def succeeded_def split: sum.splits)
  have e: "(http_latency_ms (run_network_test sep p) = None) = (\<not> succeeded (latency p))"
    by (simp add: run_network_test_def succeeded_def split: sum.splits)
  have f: "(download_mbps (run_network_test sep p) = None) = (\<not> succeeded (download p))"
    by (simp add: run_network_test_def succeeded_def split: sum.splits prod.splits)
  have g: "run_network_test sep \<lparr>ip_lookup = Inl m1, latency = Inr ms, download = Inr (n, t)\<rparr>
       = \<lparr>external_ip = None, http_latency_ms = Some ms, download_mbps = Some (mbps n t),
          upload_mbps = None, error = Some m1\<rparr>"
    by (simp add: run_network_test_def failures_def failure_of_def)
  have h: "run_network_test sep \<lparr>ip_lookup = Inl m1, latency = Inl m2, download = Inl m3\<rparr>
       = \<lparr>external_ip = None, http_latency_ms = None, download_mbps = None,
          upload_mbps = None, error = Some (m1 @ sep @ m2 @ sep @ m3)\<rparr>"
    by (simp add: run_network_test_def failures_def failure_of_def)
  show ?thesis by (intro conjI a b c d e f g h)
qed

text \<open>
  Claim C2. The backend command settles its promise with a result record, never with a
  rejection. Whenever the promise a suspended \<open>runTest\<close> waits for settles, the \<open>net\<close> cell
  holds a record afterwards: the backend's record when the promise is fulfilled, the
  record \<open>{ error: String(e) }\<close> when it is rejected; the hint paragraph is not shown.
\<close>

theorem run_test_always_yields_result:
  assumes "AwaitTest \<in> set (pending w)"
  shows "run_network_test_reply sep p = Inr (run_network_test sep p)
         \<and> net (ui (step (SettleTest (run_network_test_reply sep p)) w))
             = Some (run_network_test sep p)
         \<and> net (ui (step (SettleTest (Inl e)) w)) = Some (error_result e)
         \<and> net (ui (step (SettleTest r) w)) \<noteq> None
         \<and> net_view (ui (step (SettleTest r) w)) \<noteq> [P_net_hint]"
  using assms
  by (simp add: run_network_test_reply_def runTest_after_def setters net_view_def
           split: sum.splits option.splits)

theorem run_test_always_yields_result_witness:
  "AwaitTest \<in> set (pending (step ClickRunTest initial_world))
   \<and> net (ui (step (SettleTest (Inl ''offline'')) (step ClickRunTest initial_world)))
       = Some (error_result ''offline'')"
proof -
  have h: "AwaitTest \<in> set (pending (step ClickRunTest initial_world))"
    by (simp add: runTest_def setters initial_world_def initial_state_def)
  show ?thesis
    using h run_test_always_yields_result [OF h, where e = "''offline''" and r = "Inl ''offline''" and sep = "'', ''"
             and p = "\<lparr>ip_lookup = Inl ''a'', latency = Inl ''b'', download = Inl ''c''\<rparr>"]
    by simp
qed

text \<open>
  Claim C6. When the download succeeds with \<open>n\<close> bytes in \<open>t > 0\<close> seconds, the result's
  \<open>download_mbps\<close> is \<open>(n * 8) / (t * 1000000)\<close>; for 3,000,000 bytes this is
  \<open>3000000 * 8 / (t * 1000000)\<close>, that is \<open>24 / t\<close>. The numbers are exact reals here.
\<close>

theorem download_mbps_formula:
  assumes "0 < t"
  shows "download_mbps (run_network_test sep (p\<lparr>download := Inr (n, t)\<rparr>))
           = Some ((real n * 8) / (t * 1000000))
         \<and> download_mbps (run_network_test sep (p\<lparr>download := Inr (3000000, t)\<rparr>))
           = Some (3000000 * 8 / (t * 1000000))
         \<and> download_mbps (run_network_test sep (p\<lparr>download := Inr (3000000, t)\<rparr>))
           = Some (24 / t)"
  using assms by (simp add: run_network_test_def mbps_def)

theorem download_mbps_formula_witness:
  "(0::real) < 2
   \<and> download_mbps (run_network_test '', ''
        (\<lparr>ip_lookup = Inr ''203.0.113.7'', latency = Inr 35, download = Inl ''timeout''\<rparr>
           \<lparr>download := Inr (3000000, 2)\<rparr>)) = Some 12"
proof -
  have h: "(0::real) < 2" by simp
  show ?thesis
    using h download_mbps_formula [OF h, where sep = "'', ''" and n = 3000000
             and p = "\<lparr>ip_lookup = Inr ''203.0.113.7'', latency = Inr 35, download = Inl ''timeout''\<rparr>"]
    by simp
qed

text \<open>
  Claim C7. The \<open>upload_mbps\<close> field of the backend's result is always absent, as it is in
  the record the shell builds when the call rejects; the upload cell of the displayed
  result therefore shows a dash.
\<close>

theorem upload_mbps_never_populated:
  "upload_mbps (run_network_test sep p) = None
   \<and> upload_mbps (error_result e) = None
   \<and> net_view (st\<lparr>net := Some (run_network_test sep p)\<rparr>)
       = [Net_grid
           ([Str (or_dash (external_ip (run_network_test sep p))),
             (case http_latency_ms (run_network_test sep p) of
                None \<Rightarrow> Str ''-'' | Some x \<Rightarrow> Ms x),
             (case download_mbps (run_network_test sep p) of
                None \<Rightarrow> Str ''-'' | Some x \<Rightarrow> Mbps x),
             Str ''-'']
            @ (case error (run_network_test sep p) of
                 None \<Rightarrow> []
               | Some e \<Rightarrow> if e = [] then [] else [Err e]))]"
  by (simp add: run_network_test_def error_result_def net_view_def)

section \<open>System information\<close>

text \<open>
  Claim C8. The backend's \<open>get_system_info\<close> settles its promise with a record for every
  host. A reading the host cannot determine is absent in the record, the CPU brand is the
  host's string, and sizes and uptime are the host's unsigned integers. At startup the
  shell then stores that record and shows the grid, with a dash for each absent value.
\<close>

theorem get_system_info_always_succeeds:
  "get_system_info_reply h = Inr (get_system_info h)
   \<and> os_name (get_system_info h) = host_os_name h
   \<and> hostname (get_system_info h) = host_hostname h
   \<and> kernel_version (get_system_info h) = host_kernel_version h
   \<and> os_version (get_system_info h) = host_os_version h
   \<and> cpu_physical_cores (get_system_info h) = host_physical_cores h
   \<and> cpu_brand (get_system_info h) = host_cpu_brand h
   \<and> sys (ui (run [Mount, SettleSys (get_system_info_reply h)] initial_world))
       = Some (get_system_info h)
   \<and> sys_view (ui (run [Mount, SettleSys (get_system_info_reply h)] initial_world))
       = [Sys_grid
           [Str (or_dash (host_os_name h)), Str (or_dash (host_hostname h)),
            Str (or_dash (host_kernel_version h)), Str (or_dash (host_os_version h)),
            Str (host_cpu_brand h),
            (case host_physical_cores h of None \<Rightarrow> Str ''-'' | Some n \<Rightarrow> Num n),
            Num (round_kb (host_used_memory h)), Num (round_kb (host_total_memory h)),
            Num (round_kb (host_used_swap h)), Num (round_kb (host_total_swap h)),
            Num (host_uptime h div 3600)]]"
  by (simp add: get_system_info_reply_def get_system_info_def handlers setters
        initial_world_def initial_state_def sys_view_def)

end
